theory Spec2Isabelle
  imports Complex_Main "HOL-Library.Word"
begin

section \<open>The replication state machine of raft\_server.h\<close>

text \<open>
  The header declares the class \<open>ReplicationState\<close> (a \<open>braft::StateMachine\<close>) and
  four closures. The member functions whose bodies stand in the header are embedded
  from those bodies. The members that are declared only (\<open>write\<close>,
  \<open>write_to_leader\<close>, \<open>on_apply\<close>, \<open>on_snapshot_save\<close>,
  \<open>on_snapshot_load\<close>, \<open>ReplicationClosure::Run\<close>, the readiness computation) are
  embedded from the specification, each marked so.

  Everything the class does to a collaborator (the braft node, the log, the request
  channel, a completion closure) is appended to one trace of effects, in program order.
\<close>

subsection \<open>Requests, responses, closures\<close>

text \<open>
  \<open>http_req\<close> and \<open>http_res\<close> come from http\_data.h, which is not among the
  sources. A request holds the six arguments of the constructor call in
  \<open>on_leader_start\<close>, in their order; a response holds a status and a body.
\<close>

record http_req =
  raw_req :: "nat option"
  http_method :: string
  path_without_query :: string
  route_hash :: nat
  params :: "(string \<times> string) list"
  body :: string

record http_res =
  status_code :: nat
  res_body :: string

definition http_res_default :: http_res where
  "http_res_default = \<lparr>status_code = 0, res_body = ''''\<rparr>"

text \<open>\<open>ReplicationClosure\<close>: the request and response one write is bound to.\<close>

record replication_closure =
  request :: http_req
  response :: http_res

definition get_request :: "replication_closure \<Rightarrow> http_req" where
  "get_request c = request c"

definition get_response :: "replication_closure \<Rightarrow> http_res" where
  "get_response c = response c"

subsection \<open>Effects on the collaborators\<close>

datatype log_level = INFO | ERROR

text \<open>A \<open>braft::Task\<close>: the serialized entry and the closure to run when it is applied.\<close>

record task =
  task_data :: string
  task_done :: "replication_closure option"

datatype node_call =
  Node_shutdown
| Node_join
| Node_delete
| Node_apply task

datatype effect =
  Log log_level string
| Node node_call
| Forward "string option" http_req
| Resolve "replication_closure option" http_res
| Snapshot_done bool

subsection \<open>The fields of ReplicationState\<close>

type_synonym int64_t = "64 word"

text \<open>
  A peer of the committed configuration: its peering address and the address of its
  client API (the specification's NodeIdentity).
\<close>

record peer_id =
  peering_addr :: string
  api_addr :: string

text \<open>
  The fields of the class, with the header's names. \<open>node\<close> is the pointer to the braft
  node: \<open>None\<close> is \<open>nullptr\<close>. \<open>shut_down\<close> is the process-wide
  \<open>std::atomic<bool>&\<close> handed to the constructor. The two mutexes and the condition
  variable have no field: \<open>ready\<close> is the predicate the condition variable guards.
  \<open>size_t\<close> fields are \<open>nat\<close>: the header does no arithmetic on them.
\<close>

record replication_state =
  node :: "nat option"
  leader_term :: int64_t
  peers :: "peer_id set"
  catchup_min_sequence_diff :: nat
  catch_up_threshold_percentage :: nat
  caught_up :: bool
  api_uses_ssl :: bool
  create_init_db_snapshot :: bool
  shut_down :: bool
  raft_dir_path :: string
  ext_snapshot_path :: string
  election_timeout_interval_ms :: int
  ready :: bool
  effects :: "effect list"

definition emit :: "effect \<Rightarrow> 'a replication_state_scheme \<Rightarrow> 'a replication_state_scheme" where
  "emit e s = s\<lparr>effects := effects s @ [e]\<rparr>"

text \<open>The calls made on the braft node, in order, read off the trace.\<close>

fun node_calls :: "effect list \<Rightarrow> node_call list" where
  "node_calls [] = []"
| "node_calls (Node c # es) = c # node_calls es"
| "node_calls (e # es) = node_calls es"

fun proposals :: "effect list \<Rightarrow> task list" where
  "proposals [] = []"
| "proposals (Node (Node_apply t) # es) = t # proposals es"
| "proposals (e # es) = proposals es"

fun forwards :: "effect list \<Rightarrow> (string option \<times> http_req) list" where
  "forwards [] = []"
| "forwards (Forward u r # es) = (u, r) # forwards es"
| "forwards (e # es) = forwards es"

subsection \<open>Member functions defined in the header\<close>

definition has_leader_term :: "'a replication_state_scheme \<Rightarrow> bool" where
  "has_leader_term s = (0 <s leader_term s)"

definition is_ready :: "'a replication_state_scheme \<Rightarrow> bool" where
  "is_ready s = caught_up s"

definition shutdown :: "'a replication_state_scheme \<Rightarrow> 'a replication_state_scheme" where
  "shutdown s =
     (let s1 = emit (Log INFO ''Replication state shutdown.'') s;
          s2 = s1\<lparr>shut_down := True\<rparr>
      in case node s2 of
           Some n \<Rightarrow> emit (Node Node_shutdown) s2
         | None \<Rightarrow> s2)"

definition join :: "'a replication_state_scheme \<Rightarrow> 'a replication_state_scheme" where
  "join s =
     (case node s of
        Some n \<Rightarrow>
          (let s1 = emit (Node Node_join) s;
               s2 = emit (Node Node_delete) s1
           in s2\<lparr>node := None\<rparr>)
      | None \<Rightarrow> s)"

text \<open>
  \<open>wait\<close> blocks on the condition variable until \<open>ready\<close> holds, then clears it:
  \<open>None\<close> is the caller still blocked in this state.
\<close>

definition wait :: "'a replication_state_scheme \<Rightarrow> 'a replication_state_scheme option" where
  "wait s = (if ready s then Some (s\<lparr>ready := False\<rparr>) else None)"

definition notify :: "'a replication_state_scheme \<Rightarrow> 'a replication_state_scheme" where
  "notify s = s\<lparr>ready := True\<rparr>"

definition on_leader_stop :: "'a replication_state_scheme \<Rightarrow> 'a replication_state_scheme" where
  "on_leader_stop s = emit (Log INFO ''Node stepped down : '') (s\<lparr>leader_term := - 1\<rparr>)"

definition on_shutdown :: "'a replication_state_scheme \<Rightarrow> 'a replication_state_scheme" where
  "on_shutdown s = emit (Log INFO ''This node is down'') s"

definition on_error :: "'a replication_state_scheme \<Rightarrow> 'a replication_state_scheme" where
  "on_error s = emit (Log ERROR ''Met peering error '') s"

definition on_configuration_committed ::
  "peer_id list \<Rightarrow> 'a replication_state_scheme \<Rightarrow> 'a replication_state_scheme" where
  "on_configuration_committed conf s =
     (emit (Log INFO ''Configuration of this group is '') s)\<lparr>peers := set conf\<rparr>"

definition on_start_following :: "'a replication_state_scheme \<Rightarrow> 'a replication_state_scheme" where
  "on_start_following s = emit (Log INFO ''Node starts following '') s"

definition on_stop_following :: "'a replication_state_scheme \<Rightarrow> 'a replication_state_scheme" where
  "on_stop_following s = emit (Log INFO ''Node stops following '') s"

subsection \<open>The collaborators\<close>

text \<open>
  The Store, the serialization of requests, the Request Channel and the external
  snapshot archive are outside this class. Their behaviour is a parameter of the
  model: one record of functions, with the specification's names for the Store
  (\<open>apply\<close>, \<open>checkpoint\<close>, \<open>current_sequence\<close>). \<open>None\<close> is a failure status.
  \<open>proxy\<close> is the Request Channel's result for a forwarding call to a leader URL,
  or to no URL when the leader is unknown.
\<close>

record ('st, 'op) collaborators =
  serialize :: "http_req \<Rightarrow> string"
  deserialize :: "string \<Rightarrow> 'op option"
  store_apply :: "'op \<Rightarrow> 'st \<Rightarrow> ('st \<times> http_res) option"
  current_sequence :: "'st \<Rightarrow> nat"
  checkpoint :: "'st \<Rightarrow> 'st option"
  store_empty :: 'st
  unpack_override :: "string \<Rightarrow> ('st \<times> nat) option"
  proxy :: "string option \<Rightarrow> http_req \<Rightarrow> http_res"

subsection \<open>State the specification adds\<close>

text \<open>
  Modelled from the spec: the header has no snapshot type. Section 3, SnapshotRecord:
  directory, contained applied index, optional override path; \<open>snap_checkpoint\<close> is
  the Store checkpoint the directory holds.
\<close>

record 'st snapshot_record =
  snap_dir :: string
  snap_applied_index :: nat
  snap_override_path :: "string option"
  snap_checkpoint :: 'st

text \<open>
  Modelled from the spec: what the snapshot directory holds when the node starts
  (section 4.3: a snapshot, none, or a corrupt one).
\<close>

datatype 'st snapshot_slot =
  No_snapshot
| Corrupt_snapshot
| Published "'st snapshot_record"

text \<open>
  Modelled from the spec: the state behind the pointers \<open>store\<close> and \<open>node\<close>, which
  the header does not show. The header's fields, and the Store's contents,
  AppliedIndex, the leader's known sequence, the leader the Consensus Core knows, the
  current snapshot on disk and whether the node was initialized before (section 3).
\<close>

record 'st machine = replication_state +
  store :: 'st
  applied_index :: nat
  leader_known_sequence :: nat
  known_leader :: "peer_id option"
  current_snapshot :: "'st snapshot_slot"
  previously_initialized :: bool

subsection \<open>The write path\<close>

text \<open>
  Modelled from the spec: what a call of \<open>write\<close> leaves its caller with
  (section 4.2): suspended on a Completion Handle, or holding the forwarded result.
\<close>

datatype write_result =
  Suspended replication_closure
| Returned http_res

text \<open>
  Modelled from the spec: \<open>get_leader_url_path\<close> is declared only. The scenario of
  section 8 gives the shape: protocol, \<open>://\<close>, the leader's API address, the path.
\<close>

definition get_leader_url_path :: "string \<Rightarrow> string \<Rightarrow> string \<Rightarrow> string" where
  "get_leader_url_path leader_addr path protocol = protocol @ ''://'' @ leader_addr @ path"

text \<open>
  Modelled from the spec: the resolution of the leader's API endpoint (section 4.2:
  from PeerSet and the port/SSL mapping). The leader the Consensus Core knows is
  looked up in \<open>peers\<close>; \<open>None\<close> is an unknown leader.
\<close>

definition resolve_leader :: "('st, 'a) machine_scheme \<Rightarrow> string \<Rightarrow> string option" where
  "resolve_leader s path =
     (case known_leader s of
        None \<Rightarrow> None
      | Some l \<Rightarrow>
          if l \<in> peers s
          then Some (get_leader_url_path (api_addr l) path
                       (if api_uses_ssl s then ''https'' else ''http''))
          else None)"

text \<open>
  Modelled from the spec: \<open>write_to_leader\<close> is declared only. Section 4.2: resolve the
  leader's API endpoint, issue a forwarding call through the Request Channel and
  return its result as it is, with the channel's error semantics if the leader is
  unknown.
\<close>

definition write_to_leader ::
  "('st, 'op) collaborators \<Rightarrow> http_req \<Rightarrow> http_res \<Rightarrow>
   ('st, 'a) machine_scheme \<Rightarrow> write_result \<times> ('st, 'a) machine_scheme" where
  "write_to_leader E req res s =
     (let target = resolve_leader s (path_without_query req)
      in (Returned (proxy E target req), emit (Forward target req) s))"

text \<open>
  The result a Completion Handle was last resolved with, read off the trace, and the
  response its caller then holds: that result, or the response as it was handed in
  when the handle has not been resolved.
\<close>

fun resolution :: "replication_closure \<Rightarrow> effect list \<Rightarrow> http_res option" where
  "resolution c [] = None"
| "resolution c (Resolve d r # es) =
     (case resolution c es of
        Some r' \<Rightarrow> Some r'
      | None \<Rightarrow> if d = Some c then Some r else None)"
| "resolution c (e # es) = resolution c es"

definition delivered :: "replication_closure \<Rightarrow> effect list \<Rightarrow> http_res" where
  "delivered c es = (case resolution c es of Some r \<Rightarrow> r | None \<Rightarrow> response c)"

text \<open>
  Modelled from the spec: the suspension point of the write path (sections 4.2, 5
  and 9: the condition variable bridges the synchronous call and the asynchronous
  commit). The caller of a write waits in the header's \<open>wait\<close>: \<open>None\<close> while it is
  blocked; once \<open>ready\<close> is set it clears the flag and returns with its response.
\<close>

definition write_resume ::
  "replication_closure \<Rightarrow> 'a replication_state_scheme \<Rightarrow>
   (http_res \<times> 'a replication_state_scheme) option" where
  "write_resume c s =
     (case wait s of
        None \<Rightarrow> None
      | Some s' \<Rightarrow> Some (delivered c (effects s), s'))"

text \<open>
  Modelled from the spec: \<open>ReplicationState::write\<close> is declared only (\<open>write_request\<close>
  here: the bare name is reserved in Isabelle). Section 4.2: on the leader
  (Term > 0) the request is serialized into an entry and submitted to the Consensus
  Core with its Completion Handle, and the caller blocks at the suspension point:
  \<open>Suspended\<close> is the caller blocked in \<open>wait\<close>, to go on with \<open>write_resume\<close>.
  Otherwise the request is forwarded.
\<close>

definition write_request ::
  "('st, 'op) collaborators \<Rightarrow> http_req \<Rightarrow> http_res \<Rightarrow>
   ('st, 'a) machine_scheme \<Rightarrow> write_result \<times> ('st, 'a) machine_scheme" where
  "write_request E req res s =
     (if has_leader_term s then
        (let c = \<lparr>request = req, response = res\<rparr>;
             t = \<lparr>task_data = serialize E req, task_done = Some c\<rparr>;
             s1 = emit (Node (Node_apply t)) s
         in case write_resume c s1 of
              None \<Rightarrow> (Suspended c, s1)
            | Some (r, s2) \<Rightarrow> (Returned r, s2))
      else write_to_leader E req res s)"

text \<open>
  \<open>on_leader_start\<close>, from its body in the header: store the term; if
  \<open>create_init_db_snapshot\<close> is set, build the INIT\_SNAPSHOT request and a fresh
  response and call \<open>write\<close>; log. The caller does not use what \<open>write\<close> returns.
  The effects are those of the body in program order: the model does not hold the
  callback back while the write it calls is suspended.
\<close>

definition init_snapshot_request :: http_req where
  "init_snapshot_request =
     \<lparr>raw_req = None, http_method = ''POST'', path_without_query = ''/INIT_SNAPSHOT'',
      route_hash = 0, params = [], body = ''INIT_SNAPSHOT''\<rparr>"

definition on_leader_start ::
  "('st, 'op) collaborators \<Rightarrow> int64_t \<Rightarrow> ('st, 'a) machine_scheme \<Rightarrow> ('st, 'a) machine_scheme" where
  "on_leader_start E t s =
     (let s1 = s\<lparr>leader_term := t\<rparr>;
          s2 = (if create_init_db_snapshot s1
                then snd (write_request E init_snapshot_request http_res_default s1)
                else s1)
      in emit (Log INFO ''Node becomes leader, term: '') s2)"

subsection \<open>Sequences of member calls\<close>

datatype member_call =
  Call_on_leader_start int64_t
| Call_on_leader_stop
| Call_shutdown
| Call_join
| Call_wait
| Call_notify
| Call_on_shutdown
| Call_on_error
| Call_on_configuration_committed "peer_id list"
| Call_on_start_following
| Call_on_stop_following
| Call_write http_req http_res

text \<open>One call. A \<open>wait\<close> that would block leaves the state as it is.\<close>

fun call ::
  "('st, 'op) collaborators \<Rightarrow> member_call \<Rightarrow> ('st, 'a) machine_scheme \<Rightarrow> ('st, 'a) machine_scheme" where
  "call E (Call_on_leader_start t) s = on_leader_start E t s"
| "call E Call_on_leader_stop s = on_leader_stop s"
| "call E Call_shutdown s = shutdown s"
| "call E Call_join s = join s"
| "call E Call_wait s = (case wait s of Some s' \<Rightarrow> s' | None \<Rightarrow> s)"
| "call E Call_notify s = notify s"
| "call E Call_on_shutdown s = on_shutdown s"
| "call E Call_on_error s = on_error s"
| "call E (Call_on_configuration_committed conf) s = on_configuration_committed conf s"
| "call E Call_on_start_following s = on_start_following s"
| "call E Call_on_stop_following s = on_stop_following s"
| "call E (Call_write req res) s = snd (write_request E req res s)"

fun run ::
  "('st, 'op) collaborators \<Rightarrow> member_call list \<Rightarrow> ('st, 'a) machine_scheme \<Rightarrow> ('st, 'a) machine_scheme" where
  "run E [] s = s"
| "run E (c # cs) s = run E cs (call E c s)"

text \<open>
  The term the node believes it leads with, after a sequence of calls: the term of the
  last \<open>on_leader_start\<close> with no \<open>on_leader_stop\<close> after it.
\<close>

fun believed_term :: "int64_t option \<Rightarrow> member_call list \<Rightarrow> int64_t option" where
  "believed_term b [] = b"
| "believed_term b (Call_on_leader_start t # cs) = believed_term (Some t) cs"
| "believed_term b (Call_on_leader_stop # cs) = believed_term None cs"
| "believed_term b (c # cs) = believed_term b cs"

fun start_terms :: "member_call list \<Rightarrow> int64_t list" where
  "start_terms [] = []"
| "start_terms (Call_on_leader_start t # cs) = t # start_terms cs"
| "start_terms (c # cs) = start_terms cs"

fun is_leadership_callback :: "member_call \<Rightarrow> bool" where
  "is_leadership_callback (Call_on_leader_start t) = True"
| "is_leadership_callback Call_on_leader_stop = True"
| "is_leadership_callback c = False"

subsection \<open>Readiness\<close>

text \<open>
  Modelled from the spec: the header has the flag \<open>caught_up\<close> and \<open>is_ready\<close>, which
  returns it; the code that computes the flag is not in the header. Section 4.4:
  \<open>gap = leaderKnownSequence - localAppliedSequence\<close>, an integer.
\<close>

definition catch_up_gap :: "nat \<Rightarrow> nat \<Rightarrow> int" where
  "catch_up_gap local_applied leader_known = int leader_known - int local_applied"

text \<open>
  Modelled from the spec: the condition of section 4.4, with the header's two
  constants \<open>catchup_min_sequence_diff\<close> and \<open>catch_up_threshold_percentage\<close>. The node
  is caught up when \<open>gap <= catchupMinSequenceDiff\<close> (small absolute lag) or
  \<open>localAppliedSequence / leaderKnownSequence >= catchUpThresholdPercentage\<close>
  (proportionally close enough). The threshold is a percentage, so the quotient, a
  real number, is compared with the threshold over 100.
\<close>

definition caught_up_condition :: "nat \<Rightarrow> nat \<Rightarrow> nat \<Rightarrow> nat \<Rightarrow> bool" where
  "caught_up_condition min_diff threshold local_applied leader_known =
     (catch_up_gap local_applied leader_known \<le> int min_diff
      \<or> real local_applied / real leader_known \<ge> real threshold / 100)"

text \<open>
  Modelled from the spec: the recomputation of the flag, from the Store's
  \<open>current_sequence\<close> and the leader's known sequence.
\<close>

definition refresh_catchup_status ::
  "('st, 'op) collaborators \<Rightarrow> ('st, 'a) machine_scheme \<Rightarrow> ('st, 'a) machine_scheme" where
  "refresh_catchup_status E s =
     s\<lparr>caught_up :=
         caught_up_condition (catchup_min_sequence_diff s) (catch_up_threshold_percentage s)
           (current_sequence E (store s)) (leader_known_sequence s)\<rparr>"

subsection \<open>The Apply Pipeline\<close>

text \<open>
  Modelled from the spec: \<open>braft::Iterator\<close> is not among the sources. Section 4.1:
  a committed entry is tagged with its log index and term; it carries its data and
  the closure of the write that proposed it, if a caller still waits for it.
\<close>

record log_entry =
  entry_index :: nat
  entry_term :: int64_t
  entry_data :: string
  entry_done :: "replication_closure option"

text \<open>Modelled from the spec: the two apply failures section 4.1 names.\<close>

datatype apply_error = Malformed_entry | Store_fault

text \<open>Modelled from the spec: the synthesized no-op result of section 4.1.\<close>

definition no_op_result :: http_res where
  "no_op_result = http_res_default"

text \<open>
  Modelled from the spec: \<open>ReplicationClosure::Run\<close> is declared only. Sections 2 and
  9: firing the Completion Handle hands the result to the request it is bound to and
  unblocks the caller, who waits on the condition variable: the header's \<open>notify\<close>.
\<close>

definition closure_run ::
  "replication_closure \<Rightarrow> http_res \<Rightarrow> 'a replication_state_scheme \<Rightarrow> 'a replication_state_scheme" where
  "closure_run c r s = notify (emit (Resolve (Some c) r) s)"

text \<open>
  Modelled from the spec: \<open>on_apply\<close> is declared only. Section 4.1, for one entry:
  deserialize it into an operation, apply it to the Store, resolve the matching
  Completion Handle with the operation's result (a synthesized no-op result if no
  caller waits), advance AppliedIndex once; section 4.4: recompute readiness on every
  applied entry. An apply failure is fatal: it is logged and the process halts,
  \<open>Inl\<close> with the error and the state at the halt.
\<close>

definition apply_entry ::
  "('st, 'op) collaborators \<Rightarrow> log_entry \<Rightarrow> ('st, 'a) machine_scheme \<Rightarrow>
   (apply_error \<times> ('st, 'a) machine_scheme) + ('st, 'a) machine_scheme" where
  "apply_entry E e s =
     (case deserialize E (entry_data e) of
        None \<Rightarrow> Inl (Malformed_entry, emit (Log ERROR ''Apply failed: malformed entry'') s)
      | Some opn \<Rightarrow>
          (case store_apply E opn (store s) of
             None \<Rightarrow> Inl (Store_fault, emit (Log ERROR ''Apply failed: store fault'') s)
           | Some (st', result) \<Rightarrow>
               (let s1 = s\<lparr>store := st', applied_index := Suc (applied_index s)\<rparr>;
                    s2 = (case entry_done e of
                            Some c \<Rightarrow> closure_run c result s1
                          | None \<Rightarrow> emit (Resolve None no_op_result) s1)
                in Inr (refresh_catchup_status E s2))))"

text \<open>
  Modelled from the spec: the loop of \<open>on_apply\<close> over the committed entries, in the
  order the iterator delivers them; it stops at the first fatal failure.
\<close>

fun on_apply ::
  "('st, 'op) collaborators \<Rightarrow> log_entry list \<Rightarrow> ('st, 'a) machine_scheme \<Rightarrow>
   (apply_error \<times> ('st, 'a) machine_scheme) + ('st, 'a) machine_scheme" where
  "on_apply E [] s = Inr s"
| "on_apply E (e # es) s =
     (case apply_entry E e s of
        Inl h \<Rightarrow> Inl h
      | Inr s' \<Rightarrow> on_apply E es s')"

text \<open>
  The reference the pipeline is compared with: the Store after the operations of a
  list of entries were applied one after another, in list order, none left out;
  \<open>None\<close> if one of them cannot be deserialized or applied.
\<close>

fun store_replay :: "('st, 'op) collaborators \<Rightarrow> string list \<Rightarrow> 'st \<Rightarrow> 'st option" where
  "store_replay E [] st = Some st"
| "store_replay E (d # ds) st =
     (case deserialize E d of
        None \<Rightarrow> None
      | Some opn \<Rightarrow>
          (case store_apply E opn st of
             None \<Rightarrow> None
           | Some (st', result) \<Rightarrow> store_replay E ds st'))"

text \<open>The closures resolved, in order, read off the trace.\<close>

fun resolved :: "effect list \<Rightarrow> replication_closure option list" where
  "resolved [] = []"
| "resolved (Resolve c r # es) = c # resolved es"
| "resolved (e # es) = resolved es"

subsection \<open>Snapshots\<close>

text \<open>Modelled from the spec: the fatal outcomes of a snapshot load (section 4.3).\<close>

datatype snapshot_error = Snapshot_missing | Snapshot_corrupt | Override_unreadable

text \<open>
  Modelled from the spec: \<open>on_snapshot_save\<close> is declared only. Section 4.3: checkpoint
  the Store, record the applied index and, if present, the override path, publish the
  directory as the current snapshot and report success; on failure report failure and
  leave the published snapshot as it was. \<open>writer_path\<close> is the directory of the
  \<open>braft::SnapshotWriter\<close>.
\<close>

definition on_snapshot_save ::
  "('st, 'op) collaborators \<Rightarrow> string \<Rightarrow> ('st, 'a) machine_scheme \<Rightarrow> ('st, 'a) machine_scheme" where
  "on_snapshot_save E writer_path s =
     (case checkpoint E (store s) of
        None \<Rightarrow> emit (Snapshot_done False) (emit (Log ERROR ''Snapshot save failed'') s)
      | Some img \<Rightarrow>
          (let r = \<lparr>snap_dir = writer_path,
                    snap_applied_index = applied_index s,
                    snap_override_path =
                      (if ext_snapshot_path s = [] then None else Some (ext_snapshot_path s)),
                    snap_checkpoint = img\<rparr>
           in emit (Snapshot_done True) (s\<lparr>current_snapshot := Published r\<rparr>)))"

text \<open>
  Modelled from the spec: \<open>on_snapshot_load\<close> is declared only. Section 4.3: if an
  override path is configured, prefer and unpack it (a full-state archive: a Store
  image and the index it stands for); otherwise open the current snapshot, reopen the
  Store against it and set AppliedIndex to the value in its metadata. A missing or
  corrupt snapshot on a previously initialized node is fatal; a missing snapshot on the
  first start gives the empty Store at index 0.
\<close>

definition on_snapshot_load ::
  "('st, 'op) collaborators \<Rightarrow> ('st, 'a) machine_scheme \<Rightarrow>
   snapshot_error + ('st, 'a) machine_scheme" where
  "on_snapshot_load E s =
     (if ext_snapshot_path s \<noteq> [] then
        (case unpack_override E (ext_snapshot_path s) of
           None \<Rightarrow> Inl Override_unreadable
         | Some (img, i) \<Rightarrow> Inr (s\<lparr>store := img, applied_index := i\<rparr>))
      else
        (case current_snapshot s of
           Published r \<Rightarrow>
             Inr (s\<lparr>store := snap_checkpoint r, applied_index := snap_applied_index r\<rparr>)
         | Corrupt_snapshot \<Rightarrow> Inl Snapshot_corrupt
         | No_snapshot \<Rightarrow>
             if previously_initialized s then Inl Snapshot_missing
             else Inr (s\<lparr>store := store_empty E, applied_index := 0\<rparr>)))"

subsection \<open>A concrete instance\<close>

text \<open>
  A small key-value Store, to run the model on: an entry is \<open>key=value\<close>, the Store
  keeps the pairs and counts the operations it applied; it refuses an empty key.
\<close>

type_synonym kv_store = "(string \<times> string) list \<times> nat"

definition kv_deserialize :: "string \<Rightarrow> (string \<times> string) option" where
  "kv_deserialize d =
     (if CHR ''='' \<in> set d
      then Some (takeWhile (\<lambda>c. c \<noteq> CHR ''='') d, tl (dropWhile (\<lambda>c. c \<noteq> CHR ''='') d))
      else None)"

definition kv_apply :: "string \<times> string \<Rightarrow> kv_store \<Rightarrow> (kv_store \<times> http_res) option" where
  "kv_apply kv st =
     (if fst kv = [] then None
      else Some (((fst kv, snd kv) # filter (\<lambda>p. fst p \<noteq> fst kv) (fst st), Suc (snd st)),
                 \<lparr>status_code = 201, res_body = snd kv\<rparr>))"

definition kv_collaborators :: "(kv_store, string \<times> string) collaborators" where
  "kv_collaborators =
     \<lparr>serialize = (\<lambda>r. path_without_query r @ ''='' @ body r),
      deserialize = kv_deserialize,
      store_apply = kv_apply,
      current_sequence = snd,
      checkpoint = Some,
      store_empty = ([], 0),
      unpack_override = (\<lambda>p. if p = ''/ext'' then Some (([(''k'', ''old'')], 7), 7) else None),
      proxy = (\<lambda>u r. case u of
                       Some url \<Rightarrow> \<lparr>status_code = 307, res_body = url\<rparr>
                     | None \<Rightarrow> \<lparr>status_code = 500, res_body = ''no leader''\<rparr>)\<rparr>"

definition leader_peer :: peer_id where
  "leader_peer = \<lparr>peering_addr = ''host:8107'', api_addr = ''host:9000''\<rparr>"

definition follower_state :: "kv_store machine" where
  "follower_state =
     \<lparr>node = Some 1, leader_term = - 1, peers = {leader_peer},
      catchup_min_sequence_diff = 50, catch_up_threshold_percentage = 95,
      caught_up = False, api_uses_ssl = False, create_init_db_snapshot = True,
      shut_down = False, raft_dir_path = ''/raft'', ext_snapshot_path = [],
      election_timeout_interval_ms = 1000, ready = False, effects = [],
      store = ([], 0), applied_index = 0, leader_known_sequence = 1000,
      known_leader = Some leader_peer, current_snapshot = No_snapshot,
      previously_initialized = False\<rparr>"

definition set_entry :: "nat \<Rightarrow> string \<Rightarrow> log_entry" where
  "set_entry i d = \<lparr>entry_index = i, entry_term = 1, entry_data = d, entry_done = None\<rparr>"







text \<open>A node at index 3 with an external override path configured.\<close>

definition override_state :: "kv_store machine" where
  "override_state =
     follower_state
       \<lparr>ext_snapshot_path := ''/ext'', store := ([(''x'', ''1'')], 3), applied_index := 3\<rparr>"

section \<open>Properties\<close>

subsection \<open>Reading the trace\<close>

lemma emit_simps:
  "effects (emit e s) = effects s @ [e]"
  "node (emit e s) = node s"
  "leader_term (emit e s) = leader_term s"
  "shut_down (emit e s) = shut_down s"
  "ready (emit e s) = ready s"
  "peers (emit e s) = peers s"
  "caught_up (emit e s) = caught_up s"
  "create_init_db_snapshot (emit e s) = create_init_db_snapshot s"
  by (simp_all add: emit_def)

lemma node_calls_append: "node_calls (xs @ ys) = node_calls xs @ node_calls ys"
  by (induction xs rule: node_calls.induct) simp_all

lemma proposals_append: "proposals (xs @ ys) = proposals xs @ proposals ys"
  by (induction xs rule: proposals.induct) simp_all

lemma forwards_append: "forwards (xs @ ys) = forwards xs @ forwards ys"
  by (induction xs rule: forwards.induct) simp_all

lemma resolved_append: "resolved (xs @ ys) = resolved xs @ resolved ys"
  by (induction xs rule: resolved.induct) simp_all

subsection \<open>What a write changes\<close>


lemma write_resume_ready:
  "ready s \<Longrightarrow> write_resume c s = Some (delivered c (effects s), s\<lparr>ready := False\<rparr>)"
  by (simp add: write_resume_def wait_def)

lemma write_request_leader:
  "has_leader_term s \<Longrightarrow>
   write_request E req res s =
     (if ready s
      then (Returned (delivered \<lparr>request = req, response = res\<rparr>
                        (effects s @ [Node (Node_apply
                           \<lparr>task_data = serialize E req,
                             task_done = Some \<lparr>request = req, response = res\<rparr>\<rparr>)])),
            (emit (Node (Node_apply
                           \<lparr>task_data = serialize E req,
                             task_done = Some \<lparr>request = req, response = res\<rparr>\<rparr>)) s)
              \<lparr>ready := False\<rparr>)
      else (Suspended \<lparr>request = req, response = res\<rparr>,
            emit (Node (Node_apply
                          \<lparr>task_data = serialize E req,
                            task_done = Some \<lparr>request = req, response = res\<rparr>\<rparr>)) s))"
  by (simp add: write_request_def write_resume_def wait_def emit_def Let_def)

lemma write_request_follower:
  "\<not> has_leader_term s \<Longrightarrow>
   write_request E req res s =
     (Returned (proxy E (resolve_leader s (path_without_query req)) req),
      emit (Forward (resolve_leader s (path_without_query req)) req) s)"
  by (simp add: write_request_def write_to_leader_def Let_def)

lemma write_request_effects:
  "effects (snd (write_request E req res s)) =
     effects s @
       [if has_leader_term s
        then Node (Node_apply \<lparr>task_data = serialize E req,
                                 task_done = Some \<lparr>request = req, response = res\<rparr>\<rparr>)
        else Forward (resolve_leader s (path_without_query req)) req]"
  by (cases "has_leader_term s")
     (simp_all add: write_request_leader write_request_follower emit_def)

lemma write_request_frame:
  "leader_term (snd (write_request E req res s)) = leader_term s"
  "applied_index (snd (write_request E req res s)) = applied_index s"
  "ready s \<or> ready (snd (write_request E req res s)) = ready s"
  by (cases "has_leader_term s";
      simp add: write_request_leader write_request_follower emit_def)+

subsection \<open>Shutdown and join\<close>

text \<open>
  C10. \<open>shutdown\<close> on a null node handle (before \<open>start\<close> created the node, or after
  \<open>join\<close> deleted it) is safe: the null check skips \<open>node->shutdown\<close>, so no call is
  made on the handle; only the log line is written and the \<open>shut_down\<close> flag is set.
\<close>

theorem shutdown_null_node_safe:
  "node s = None \<Longrightarrow>
     shutdown s = s\<lparr>effects := effects s @ [Log INFO ''Replication state shutdown.''],
                    shut_down := True\<rparr>
     \<and> node_calls (effects (shutdown s)) = node_calls (effects s)
     \<and> shut_down (shutdown s)
     \<and> node (shutdown s) = None"
  by (simp add: shutdown_def emit_def node_calls_append)

theorem shutdown_null_node_safe_witness:
  "node (join follower_state) = None
   \<and> shut_down (shutdown (join follower_state))
   \<and> node_calls (effects (shutdown (join follower_state))) = [Node_join, Node_delete]
   \<and> effects (shutdown (join follower_state)) =
       [Node Node_join, Node Node_delete, Log INFO ''Replication state shutdown.'']"
  using shutdown_null_node_safe [of "join follower_state"]
  by (simp add: join_def follower_state_def emit_def)

text \<open>
  \<open>shutdown\<close> itself resolves no closure and does not notify the condition variable:
  a caller blocked in \<open>wait\<close> is still blocked after it.
\<close>

lemma shutdown_resolves_nothing:
  "resolved (effects (shutdown s)) = resolved (effects s)
   \<and> ready (shutdown s) = ready s
   \<and> (\<not> ready s \<longrightarrow> wait (shutdown s) = None)"
  by (simp add: shutdown_def emit_def wait_def resolved_append Let_def split: option.splits)

text \<open>
  C8. \<open>join\<close> is idempotent and safe after \<open>shutdown\<close>: the first call on a live handle
  calls \<open>node->join()\<close> (which blocks until the node has stopped), then deletes the handle
  and nulls it; every later call, after \<open>join\<close> or after \<open>shutdown\<close> and \<open>join\<close>, finds the
  null handle and leaves the state unchanged, so there is no second delete.
\<close>

theorem join_idempotent:
  "join (join s) = join s
   \<and> node (join s) = None
   \<and> (node s = None \<longrightarrow> join s = s)
   \<and> (node s \<noteq> None \<longrightarrow>
        effects (join s) = effects s @ [Node Node_join, Node Node_delete])
   \<and> join (join (shutdown s)) = join (shutdown s)
   \<and> (node s \<noteq> None \<longrightarrow>
        node_calls (effects (join (join (shutdown s)))) =
          node_calls (effects s) @ [Node_shutdown, Node_join, Node_delete])
   \<and> shut_down (join (shutdown s))"
  by (auto simp: join_def shutdown_def emit_def node_calls_append Let_def split: option.splits)

theorem join_idempotent_witness:
  "node follower_state = Some 1
   \<and> node (join follower_state) = None
   \<and> join (join follower_state) = join follower_state
   \<and> effects (join (join follower_state)) = [Node Node_join, Node Node_delete]
   \<and> node_calls (effects (join (join (shutdown follower_state)))) =
       [Node_shutdown, Node_join, Node_delete]"
  using join_idempotent [of follower_state]
  by (simp add: follower_state_def join_def shutdown_def emit_def)

subsection \<open>The leader term\<close>

lemma leader_term_on_leader_start: "leader_term (on_leader_start E t s) = t"
  by (simp add: on_leader_start_def Let_def emit_simps write_request_frame)

lemma leader_term_on_leader_stop: "leader_term (on_leader_stop s) = - 1"
  by (simp add: on_leader_stop_def emit_simps)

lemma leader_term_call_other:
  "\<not> is_leadership_callback c \<Longrightarrow> leader_term (call E c s) = leader_term s"
  by (cases c)
     (simp_all add: shutdown_def join_def wait_def notify_def on_shutdown_def on_error_def
        on_configuration_committed_def on_start_following_def on_stop_following_def
        write_request_frame emit_def Let_def split: option.splits)

lemma leader_term_run:
  "leader_term s = (case b of None \<Rightarrow> - 1 | Some t \<Rightarrow> t) \<Longrightarrow>
   leader_term (run E cs s) = (case believed_term b cs of None \<Rightarrow> - 1 | Some t \<Rightarrow> t)"
proof (induction cs arbitrary: s b)
  case Nil
  then show ?case by simp
next
  case (Cons c cs)
  show ?case
  proof (cases c)
    case (Call_on_leader_start t)
    then show ?thesis
      using Cons.IH [of "on_leader_start E t s" "Some t"]
      by (simp add: leader_term_on_leader_start)
  next
    case Call_on_leader_stop
    then show ?thesis
      using Cons.IH [of "on_leader_stop s" None]
      by (simp add: leader_term_on_leader_stop)
  qed (use Cons.IH [of "call E c s" b] Cons.prems leader_term_call_other [of c E s] in simp_all)
qed

lemma believed_term_positive:
  "list_all (\<lambda>t. 0 <s t) (start_terms cs) \<Longrightarrow> (\<forall>t. b = Some t \<longrightarrow> 0 <s t) \<Longrightarrow>
   believed_term b cs = Some u \<Longrightarrow> 0 <s u"
  by (induction b cs rule: believed_term.induct) simp_all

text \<open>
  C7. The stored leader term is positive exactly while the node believes itself leader
  and -1 otherwise. From a state holding -1, after any sequence of member calls whose
  \<open>on_leader_start\<close> terms are positive, the stored term is the term of the last
  \<open>on_leader_start\<close> not followed by an \<open>on_leader_stop\<close>, and -1 when there is none;
  \<open>has_leader_term\<close> is true exactly in the first case, and true if and only if the
  stored value is greater than 0. \<open>on_leader_start\<close> stores its argument,
  \<open>on_leader_stop\<close> stores -1, and no other member call changes the term.
\<close>

theorem leader_term_tracks_leadership:
  "list_all (\<lambda>t. 0 <s t) (start_terms cs) \<Longrightarrow> leader_term s = - 1 \<Longrightarrow>
     leader_term (run E cs s) = (case believed_term None cs of None \<Rightarrow> - 1 | Some t \<Rightarrow> t)
     \<and> has_leader_term (run E cs s) = (believed_term None cs \<noteq> None)
     \<and> has_leader_term s' = (0 < sint (leader_term s'))
     \<and> leader_term (on_leader_start E t s') = t
     \<and> leader_term (on_leader_stop s') = - 1
     \<and> (\<not> is_leadership_callback c \<longrightarrow> leader_term (call E c s') = leader_term s')"
proof -
  assume starts: "list_all (\<lambda>t. 0 <s t) (start_terms cs)" and init: "leader_term s = - 1"
  have lt: "leader_term (run E cs s) = (case believed_term None cs of None \<Rightarrow> - 1 | Some t \<Rightarrow> t)"
    using leader_term_run [of s None E cs] init by simp
  have hl: "has_leader_term (run E cs s) = (believed_term None cs \<noteq> None)"
  proof (cases "believed_term None cs")
    case None
    then show ?thesis using lt by (simp add: has_leader_term_def)
  next
    case (Some u)
    then have "0 <s u" using believed_term_positive [OF starts, of None u] by simp
    then show ?thesis using lt Some by (simp add: has_leader_term_def)
  qed
  have rd: "has_leader_term s' = (0 < sint (leader_term s'))"
    by (simp add: has_leader_term_def word_sless_alt)
  show ?thesis
    using lt hl rd leader_term_on_leader_start [of E t s'] leader_term_on_leader_stop [of s']
      leader_term_call_other [of c E s']
    by blast
qed

theorem leader_term_tracks_leadership_witness:
  "leader_term follower_state = - 1
   \<and> start_terms [Call_on_leader_start 3, Call_write init_snapshot_request http_res_default,
        Call_on_leader_stop, Call_on_leader_start 5, Call_shutdown] = [3, 5]
   \<and> leader_term (run kv_collaborators
        [Call_on_leader_start 3, Call_write init_snapshot_request http_res_default,
         Call_on_leader_stop, Call_on_leader_start 5, Call_shutdown] follower_state) = 5
   \<and> has_leader_term (run kv_collaborators
        [Call_on_leader_start 3, Call_write init_snapshot_request http_res_default,
         Call_on_leader_stop, Call_on_leader_start 5, Call_shutdown] follower_state)
   \<and> leader_term (call kv_collaborators Call_join follower_state) = - 1"
  using leader_term_tracks_leadership
    [where cs = "[Call_on_leader_start 3, Call_write init_snapshot_request http_res_default,
                  Call_on_leader_stop, Call_on_leader_start 5, Call_shutdown]"
       and s = follower_state and E = kv_collaborators and c = Call_join
       and s' = follower_state and t = 3]
  by (simp add: follower_state_def word_sless_alt)

subsection \<open>The dummy write on leader start\<close>

text \<open>
  C9. The dummy write on leader start is toggled by \<open>create_init_db_snapshot\<close>:
  when the flag is set, \<open>on_leader_start\<close> stores the term and calls \<open>write\<close> with
  the INIT\_SNAPSHOT request; when it is unset, it only stores the term and logs, and
  nothing is proposed or forwarded. For a positive term the proposals made on the
  Consensus Core grow by exactly the INIT\_SNAPSHOT entry if the flag is set, and by
  nothing otherwise.
\<close>

theorem dummy_write_toggle:
  "(create_init_db_snapshot s \<longrightarrow>
      on_leader_start E t s =
        emit (Log INFO ''Node becomes leader, term: '')
          (snd (write_request E init_snapshot_request http_res_default (s\<lparr>leader_term := t\<rparr>))))
   \<and> (\<not> create_init_db_snapshot s \<longrightarrow>
      on_leader_start E t s = emit (Log INFO ''Node becomes leader, term: '') (s\<lparr>leader_term := t\<rparr>)
      \<and> proposals (effects (on_leader_start E t s)) = proposals (effects s)
      \<and> forwards (effects (on_leader_start E t s)) = forwards (effects s))
   \<and> (0 <s t \<longrightarrow>
      proposals (effects (on_leader_start E t s)) =
        proposals (effects s) @
          (if create_init_db_snapshot s
           then [\<lparr>task_data = serialize E init_snapshot_request,
                  task_done = Some \<lparr>request = init_snapshot_request, response = http_res_default\<rparr>\<rparr>]
           else []))"
  by (simp add: on_leader_start_def write_request_effects has_leader_term_def Let_def emit_simps
        proposals_append forwards_append)

theorem dummy_write_toggle_witness:
  "create_init_db_snapshot follower_state
   \<and> proposals (effects (on_leader_start kv_collaborators 3 follower_state)) =
       [\<lparr>task_data = ''/INIT_SNAPSHOT=INIT_SNAPSHOT'',
         task_done = Some \<lparr>request = init_snapshot_request, response = http_res_default\<rparr>\<rparr>]
   \<and> proposals (effects (on_leader_start kv_collaborators 3
        (follower_state\<lparr>create_init_db_snapshot := False\<rparr>))) = []
   \<and> effects (on_leader_start kv_collaborators 3
        (follower_state\<lparr>create_init_db_snapshot := False\<rparr>)) =
       [Log INFO ''Node becomes leader, term: '']"
proof -
  have pos: "0 <s (3 :: int64_t)"
    by (simp add: word_sless_alt)
  have on: "proposals (effects (on_leader_start kv_collaborators 3 follower_state)) =
      [\<lparr>task_data = ''/INIT_SNAPSHOT=INIT_SNAPSHOT'',
        task_done = Some \<lparr>request = init_snapshot_request, response = http_res_default\<rparr>\<rparr>]"
    using dummy_write_toggle [of follower_state kv_collaborators 3, THEN conjunct2, THEN conjunct2] pos
    by (simp add: follower_state_def kv_collaborators_def init_snapshot_request_def)
  have off: "effects (on_leader_start kv_collaborators 3
        (follower_state\<lparr>create_init_db_snapshot := False\<rparr>)) =
       [Log INFO ''Node becomes leader, term: '']"
    using dummy_write_toggle [of "follower_state\<lparr>create_init_db_snapshot := False\<rparr>"
        kv_collaborators 3, THEN conjunct2, THEN conjunct1]
    by (simp add: follower_state_def emit_simps)
  show ?thesis
    using on off by (simp add: follower_state_def)
qed

subsection \<open>The Apply Pipeline\<close>

lemma apply_entry_Inr:
  assumes "apply_entry E e s = Inr s'"
  obtains opn result where
    "deserialize E (entry_data e) = Some opn"
    "store_apply E opn (store s) = Some (store s', result)"
    "applied_index s' = Suc (applied_index s)"
    "effects s' = effects s @
       [Resolve (entry_done e) (case entry_done e of Some c \<Rightarrow> result | None \<Rightarrow> no_op_result)]"
    "is_ready s' = caught_up_condition (catchup_min_sequence_diff s') (catch_up_threshold_percentage s')
        (current_sequence E (store s')) (leader_known_sequence s')"
  using assms
  by (auto simp: apply_entry_def closure_run_def notify_def Let_def emit_def
      refresh_catchup_status_def is_ready_def
      split: option.splits prod.splits)

lemma apply_entry_Inl:
  assumes "apply_entry E e s = Inl (err, h)"
  shows "store h = store s \<and> applied_index h = applied_index s
     \<and> resolved (effects h) = resolved (effects s)
     \<and> (\<exists>msg. effects h = effects s @ [Log ERROR msg])
     \<and> (err = Malformed_entry \<longleftrightarrow> deserialize E (entry_data e) = None)"
  using assms
  by (auto simp: apply_entry_def Let_def emit_def resolved_append
      split: option.splits prod.splits)

lemma on_apply_append:
  "on_apply E (es1 @ es2) s =
     (case on_apply E es1 s of Inl h \<Rightarrow> Inl h | Inr s1 \<Rightarrow> on_apply E es2 s1)"
  by (induction es1 arbitrary: s) (simp_all split: sum.splits)

lemma on_apply_single: "on_apply E [e] s = apply_entry E e s"
  by (simp split: sum.splits)

lemma on_apply_index:
  "on_apply E es s = Inr s' \<Longrightarrow> applied_index s' = applied_index s + length es"
proof (induction es arbitrary: s)
  case Nil
  then show ?case by simp
next
  case (Cons e es)
  then obtain s1 where a: "apply_entry E e s = Inr s1" and r: "on_apply E es s1 = Inr s'"
    by (auto split: sum.splits)
  from a have "applied_index s1 = Suc (applied_index s)"
    by (rule apply_entry_Inr)
  with Cons.IH [OF r] show ?case by simp
qed

lemma on_apply_store:
  "on_apply E es s = Inr s' \<Longrightarrow> store_replay E (map entry_data es) (store s) = Some (store s')"
proof (induction es arbitrary: s)
  case Nil
  then show ?case by simp
next
  case (Cons e es)
  then obtain s1 where a: "apply_entry E e s = Inr s1" and r: "on_apply E es s1 = Inr s'"
    by (auto split: sum.splits)
  from a obtain opn result where "deserialize E (entry_data e) = Some opn"
    "store_apply E opn (store s) = Some (store s1, result)"
    by (rule apply_entry_Inr)
  with Cons.IH [OF r] show ?case by simp
qed

lemma on_apply_resolved:
  "on_apply E es s = Inr s' \<Longrightarrow> resolved (effects s') = resolved (effects s) @ map entry_done es"
proof (induction es arbitrary: s)
  case Nil
  then show ?case by simp
next
  case (Cons e es)
  then obtain s1 where a: "apply_entry E e s = Inr s1" and r: "on_apply E es s1 = Inr s'"
    by (auto split: sum.splits)
  from a have "resolved (effects s1) = resolved (effects s) @ [entry_done e]"
    by (rule apply_entry_Inr) (simp add: resolved_append)
  with Cons.IH [OF r] show ?case by simp
qed

lemma on_apply_halt_index:
  "on_apply E es s = Inl (err, h) \<Longrightarrow>
     applied_index s \<le> applied_index h \<and> applied_index h < applied_index s + length es"
proof (induction es arbitrary: s)
  case Nil
  then show ?case by simp
next
  case (Cons e es)
  show ?case
  proof (cases "apply_entry E e s")
    case (Inl x)
    with Cons.prems have "apply_entry E e s = Inl (err, h)" by simp
    then show ?thesis using apply_entry_Inl [of E e s err h] by simp
  next
    case (Inr s1)
    with Cons.prems have r: "on_apply E es s1 = Inl (err, h)" by simp
    from Inr have "applied_index s1 = Suc (applied_index s)" by (rule apply_entry_Inr)
    with Cons.IH [OF r] show ?thesis by simp
  qed
qed

lemma on_apply_well_formed:
  "on_apply E es s = Inr s' \<Longrightarrow> e \<in> set es \<Longrightarrow> deserialize E (entry_data e) \<noteq> None"
proof (induction es arbitrary: s)
  case Nil
  then show ?case by simp
next
  case (Cons x es)
  then obtain s1 where a: "apply_entry E x s = Inr s1" and r: "on_apply E es s1 = Inr s'"
    by (auto split: sum.splits)
  from a obtain opn where "deserialize E (entry_data x) = Some opn"
    by (rule apply_entry_Inr)
  with Cons.IH [OF r] Cons.prems(2) show ?case by auto
qed

lemma on_apply_ready:
  assumes "on_apply E es s = Inr s'" and "es \<noteq> []"
  shows "is_ready s' = caught_up_condition (catchup_min_sequence_diff s')
           (catch_up_threshold_percentage s') (current_sequence E (store s'))
           (leader_known_sequence s')"
proof -
  from assms(2) obtain bs e where es: "es = bs @ [e]"
    by (metis append_butlast_last_id)
  with assms(1) obtain s1 where "apply_entry E e s1 = Inr s'"
    by (auto simp: on_apply_append split: sum.splits)
  then show ?thesis by (rule apply_entry_Inr)
qed

lemma call_applied_index: "applied_index (call E c s) = applied_index s"
  by (cases c)
     (simp_all add: on_leader_start_def on_leader_stop_def shutdown_def join_def wait_def
        notify_def on_shutdown_def on_error_def on_configuration_committed_def
        on_start_following_def on_stop_following_def write_request_frame
        emit_def Let_def split: option.splits)

lemma save_applied_index: "applied_index (on_snapshot_save E w s) = applied_index s"
  by (simp add: on_snapshot_save_def emit_def Let_def split: option.splits)

lemma store_replay_append:
  "store_replay E (xs @ ys) st =
     (case store_replay E xs st of None \<Rightarrow> None | Some st' \<Rightarrow> store_replay E ys st')"
  by (induction xs arbitrary: st) (auto split: option.splits prod.splits)

lemma apply_entry_refused:
  "apply_entry E e s = Inl (err, h) \<Longrightarrow> store_replay E [entry_data e] (store s) = None"
  by (auto simp: apply_entry_def Let_def split: option.splits prod.splits)

lemma on_apply_halt:
  "on_apply E es s = Inl (err, h) \<Longrightarrow>
     \<exists>pre e post s1. es = pre @ e # post \<and> on_apply E pre s = Inr s1
        \<and> apply_entry E e s1 = Inl (err, h)"
proof (induction es arbitrary: s)
  case Nil
  then show ?case by simp
next
  case (Cons x xs)
  show ?case
  proof (cases "apply_entry E x s")
    case (Inl a)
    with Cons.prems have "apply_entry E x s = Inl (err, h)" by simp
    then have "x # xs = [] @ x # xs \<and> on_apply E [] s = Inr s \<and> apply_entry E x s = Inl (err, h)"
      by simp
    then show ?thesis by blast
  next
    case (Inr s0)
    with Cons.prems have "on_apply E xs s0 = Inl (err, h)" by simp
    from Cons.IH [OF this] obtain pre e post s1 where
      "xs = pre @ e # post" "on_apply E pre s0 = Inr s1" "apply_entry E e s1 = Inl (err, h)"
      by blast
    with Inr have "x # xs = (x # pre) @ e # post \<and> on_apply E (x # pre) s = Inr s1
        \<and> apply_entry E e s1 = Inl (err, h)"
      by simp
    then show ?thesis by blast
  qed
qed

lemma store_replay_on_apply:
  "store_replay E (map entry_data es) (store s) = Some st' \<Longrightarrow>
     \<exists>s'. on_apply E es s = Inr s' \<and> store s' = st'"
proof (induction es arbitrary: s)
  case Nil
  then show ?case by simp
next
  case (Cons e es)
  from Cons.prems obtain opn st1 result where
    d: "deserialize E (entry_data e) = Some opn" and
    a: "store_apply E opn (store s) = Some (st1, result)" and
    r: "store_replay E (map entry_data es) st1 = Some st'"
    by (auto split: option.splits)
  from d a obtain s1 where s1: "apply_entry E e s = Inr s1" and "store s1 = st1"
    by (cases "entry_done e")
       (simp_all add: apply_entry_def closure_run_def notify_def Let_def emit_def
          refresh_catchup_status_def)
  with Cons.IH [of s1] r s1 show ?case by simp
qed

lemma on_apply_applies_iff:
  "(\<exists>s'. on_apply E es s = Inr s') = (store_replay E (map entry_data es) (store s) \<noteq> None)"
  using on_apply_store [of E es s] store_replay_on_apply [of E es s] by fastforce

lemma on_apply_halt_prefix:
  assumes "on_apply E es s = Inl (err, h)"
  shows "\<exists>pre e post. es = pre @ e # post
      \<and> store_replay E (map entry_data pre) (store s) = Some (store h)
      \<and> store_replay E (map entry_data (pre @ [e])) (store s) = None
      \<and> resolved (effects h) = resolved (effects s) @ map entry_done pre
      \<and> applied_index h = applied_index s + length pre"
proof -
  from on_apply_halt [OF assms] obtain pre e post s1 where
    es: "es = pre @ e # post" and p: "on_apply E pre s = Inr s1"
    and f: "apply_entry E e s1 = Inl (err, h)"
    by blast
  have h: "store h = store s1" "applied_index h = applied_index s1"
    "resolved (effects h) = resolved (effects s1)"
    using apply_entry_Inl [OF f] by simp_all
  have "store_replay E (map entry_data pre) (store s) = Some (store h)"
    using on_apply_store [OF p] h by simp
  moreover have "store_replay E (map entry_data (pre @ [e])) (store s) = None"
    using on_apply_store [OF p] apply_entry_refused [OF f] by (simp add: store_replay_append)
  moreover have "resolved (effects h) = resolved (effects s) @ map entry_done pre"
    using on_apply_resolved [OF p] h by simp
  moreover have "applied_index h = applied_index s + length pre"
    using on_apply_index [OF p] h by simp
  ultimately show ?thesis using es by blast
qed

text \<open>
  C1. \<open>on_apply\<close> applies the committed entries it is handed strictly in commit
  order, one at a time, none reordered and none skipped. A batch is applied to the end
  exactly when applying every entry's operation to the Store in list order succeeds;
  then the Store is the one that sequence of operations gives, the closures were
  resolved in commit order, one per entry, and AppliedIndex has advanced by exactly
  the number of entries. Otherwise the pipeline halted at the first entry that cannot
  be applied: exactly the entries before it were applied, in order, and AppliedIndex
  advanced once for each of them. A batch is applied as its prefix and then its rest,
  a single entry by one step. So AppliedIndex never goes down under \<open>on_apply\<close>, and
  once the node runs nothing else writes it: no member call of the header and no
  snapshot save changes it.
\<close>

theorem apply_in_commit_order:
  "((\<exists>s1. on_apply E es s = Inr s1) = (store_replay E (map entry_data es) (store s) \<noteq> None))
   \<and> (on_apply E es s = Inr s' \<longrightarrow>
      store_replay E (map entry_data es) (store s) = Some (store s')
      \<and> resolved (effects s') = resolved (effects s) @ map entry_done es
      \<and> applied_index s' = applied_index s + length es)
   \<and> (on_apply E es s = Inl (err, h) \<longrightarrow>
      (\<exists>pre e post. es = pre @ e # post
         \<and> store_replay E (map entry_data pre) (store s) = Some (store h)
         \<and> store_replay E (map entry_data (pre @ [e])) (store s) = None
         \<and> resolved (effects h) = resolved (effects s) @ map entry_done pre
         \<and> applied_index h = applied_index s + length pre)
      \<and> applied_index s \<le> applied_index h \<and> applied_index h < applied_index s + length es)
   \<and> on_apply E (es1 @ es2) s =
       (case on_apply E es1 s of Inl h \<Rightarrow> Inl h | Inr s1 \<Rightarrow> on_apply E es2 s1)
   \<and> on_apply E [e] s = apply_entry E e s
   \<and> applied_index (call E c s) = applied_index s
   \<and> applied_index (on_snapshot_save E w s) = applied_index s"
  using on_apply_applies_iff [of E es s]
    on_apply_store [of E es s s'] on_apply_resolved [of E es s s'] on_apply_index [of E es s s']
    on_apply_halt_prefix [of E es s err h] on_apply_halt_index [of E es s err h]
    on_apply_append [of E es1 es2 s] on_apply_single [of E e s]
    call_applied_index [of E c s] save_applied_index [of E w s]
  by blast

theorem apply_in_commit_order_witness:
  "\<not> isl (on_apply kv_collaborators [set_entry 1 ''x=1'', set_entry 2 ''y=2''] follower_state)
   \<and> store (projr (on_apply kv_collaborators [set_entry 1 ''x=1'', set_entry 2 ''y=2''] follower_state))
       = ([(''y'', ''2''), (''x'', ''1'')], 2)
   \<and> applied_index (projr (on_apply kv_collaborators [set_entry 1 ''x=1'', set_entry 2 ''y=2'']
        follower_state)) = 2
   \<and> resolved (effects (projr (on_apply kv_collaborators [set_entry 1 ''x=1'', set_entry 2 ''y=2'']
        follower_state))) = [None, None]
   \<and> isl (on_apply kv_collaborators [set_entry 1 ''x=1'', set_entry 2 ''=v'', set_entry 3 ''y=2'']
        follower_state)
   \<and> applied_index (snd (projl (on_apply kv_collaborators
        [set_entry 1 ''x=1'', set_entry 2 ''=v'', set_entry 3 ''y=2''] follower_state))) = 1
   \<and> applied_index (call kv_collaborators Call_shutdown follower_state) = 0"
proof -
  define r where "r = on_apply kv_collaborators [set_entry 1 ''x=1'', set_entry 2 ''y=2''] follower_state"
  define sf where "sf = projr r"
  define q where "q = on_apply kv_collaborators
      [set_entry 1 ''x=1'', set_entry 2 ''=v'', set_entry 3 ''y=2''] follower_state"
  define hf where "hf = snd (projl q)"
  have rep: "store_replay kv_collaborators (map entry_data [set_entry 1 ''x=1'', set_entry 2 ''y=2''])
          (store follower_state) = Some ([(''y'', ''2''), (''x'', ''1'')], 2)"
    by (simp add: kv_collaborators_def kv_deserialize_def kv_apply_def set_entry_def
        follower_state_def)
  have s0: "applied_index follower_state = 0" "effects follower_state = []"
    by (simp_all add: follower_state_def)
  have md: "map entry_done [set_entry 1 ''x=1'', set_entry 2 ''y=2''] = [None, None]"
    by (simp add: set_entry_def)
  note t = apply_in_commit_order
      [where E = kv_collaborators and es = "[set_entry 1 ''x=1'', set_entry 2 ''y=2'']"
         and s = follower_state and c = Call_shutdown, folded r_def]
  from t [THEN conjunct1] rep obtain s1 where ev0: "r = Inr s1"
    by auto
  then have ev: "r = Inr sf"
    by (simp add: sf_def)
  have good: "store sf = ([(''y'', ''2''), (''x'', ''1'')], 2)" "applied_index sf = 2"
    "resolved (effects sf) = [None, None]"
    using t [where s' = sf, THEN conjunct2, THEN conjunct1] ev rep s0 md by simp_all
  have qv: "q = Inl (Store_fault, hf)"
    unfolding hf_def q_def
    by (simp add: apply_entry_def kv_collaborators_def kv_deserialize_def kv_apply_def
        set_entry_def follower_state_def refresh_catchup_status_def emit_def)
  have pre: "store_replay kv_collaborators (map entry_data ([set_entry 1 ''x=1''] @ [set_entry 2 ''=v'']))
      (store follower_state) = None"
    by (simp add: kv_collaborators_def kv_deserialize_def kv_apply_def set_entry_def
        follower_state_def)
  have hidx: "applied_index hf = 1"
    unfolding hf_def q_def
    by (simp add: apply_entry_def kv_collaborators_def kv_deserialize_def kv_apply_def
        set_entry_def follower_state_def refresh_catchup_status_def emit_def)
  note u = apply_in_commit_order
      [where E = kv_collaborators
         and es = "[set_entry 1 ''x=1'', set_entry 2 ''=v'', set_entry 3 ''y=2'']"
         and s = follower_state and err = Store_fault and h = hf, folded q_def,
       THEN conjunct2, THEN conjunct2, THEN conjunct1]
  have bound: "applied_index follower_state \<le> applied_index hf"
    using u qv by simp
  have fr: "applied_index (call kv_collaborators Call_shutdown follower_state) = 0"
    using t [THEN conjunct2, THEN conjunct2, THEN conjunct2, THEN conjunct2, THEN conjunct2,
      THEN conjunct1] s0 by simp
  show ?thesis
    using ev good qv hidx bound fr
    unfolding r_def [symmetric] q_def [symmetric] sf_def [symmetric] hf_def [symmetric]
    by simp
qed

text \<open>
  C2. An apply failure is fatal. When the entries before a failing entry were applied
  and the entry fails (it cannot be deserialized, or the Store faults on it),
  \<open>on_apply\<close> halts there whatever follows in the batch: the error is logged, the
  Store and AppliedIndex stand where the last good entry left them, and no closure
  beyond those of the applied prefix is resolved. A malformed entry and a Store fault
  both give the halt. A batch that \<open>on_apply\<close> applied to the end contained no
  malformed entry and every entry of it was counted: none was skipped.
\<close>

theorem apply_failure_is_fatal:
  "(on_apply E pre s = Inr s1 \<and> apply_entry E e s1 = Inl (err, h) \<longrightarrow>
      on_apply E (pre @ e # post) s = Inl (err, h)
      \<and> store h = store s1
      \<and> applied_index h = applied_index s + length pre
      \<and> resolved (effects h) = resolved (effects s) @ map entry_done pre
      \<and> (\<exists>msg. effects h = effects s1 @ [Log ERROR msg]))
   \<and> (deserialize E (entry_data e) = None \<longrightarrow>
      apply_entry E e s =
        Inl (Malformed_entry, emit (Log ERROR ''Apply failed: malformed entry'') s))
   \<and> (deserialize E (entry_data e) = Some opn \<and> store_apply E opn (store s) = None \<longrightarrow>
      apply_entry E e s = Inl (Store_fault, emit (Log ERROR ''Apply failed: store fault'') s))
   \<and> (on_apply E es s = Inr s' \<longrightarrow>
      (\<forall>x \<in> set es. deserialize E (entry_data x) \<noteq> None)
      \<and> applied_index s' = applied_index s + length es)"
proof -
  have halt: "on_apply E (pre @ e # post) s = Inl (err, h)
      \<and> store h = store s1
      \<and> applied_index h = applied_index s + length pre
      \<and> resolved (effects h) = resolved (effects s) @ map entry_done pre
      \<and> (\<exists>msg. effects h = effects s1 @ [Log ERROR msg])"
    if p: "on_apply E pre s = Inr s1" and f: "apply_entry E e s1 = Inl (err, h)"
  proof -
    have "on_apply E (pre @ e # post) s = Inl (err, h)"
      using p f by (simp add: on_apply_append)
    moreover have "store h = store s1" "applied_index h = applied_index s1"
      "resolved (effects h) = resolved (effects s1)" "\<exists>msg. effects h = effects s1 @ [Log ERROR msg]"
      using apply_entry_Inl [OF f] by simp_all
    ultimately show ?thesis
      using on_apply_index [OF p] on_apply_resolved [OF p] by simp
  qed
  have mal: "apply_entry E e s =
      Inl (Malformed_entry, emit (Log ERROR ''Apply failed: malformed entry'') s)"
    if "deserialize E (entry_data e) = None"
    using that by (simp add: apply_entry_def)
  have fault: "apply_entry E e s = Inl (Store_fault, emit (Log ERROR ''Apply failed: store fault'') s)"
    if "deserialize E (entry_data e) = Some opn" and "store_apply E opn (store s) = None"
    using that by (simp add: apply_entry_def)
  have good: "(\<forall>x \<in> set es. deserialize E (entry_data x) \<noteq> None)
      \<and> applied_index s' = applied_index s + length es"
    if "on_apply E es s = Inr s'"
    using that on_apply_well_formed [of E es s s'] on_apply_index [of E es s s'] by blast
  show ?thesis
    using halt mal fault good by blast
qed

theorem apply_failure_is_fatal_witness:
  "on_apply kv_collaborators [set_entry 1 ''x=1'', set_entry 2 ''garbage'', set_entry 3 ''y=2'']
     follower_state =
     Inl (Malformed_entry,
          snd (projl (apply_entry kv_collaborators (set_entry 2 ''garbage'')
            (projr (on_apply kv_collaborators [set_entry 1 ''x=1''] follower_state)))))
   \<and> store (snd (projl (apply_entry kv_collaborators (set_entry 2 ''garbage'')
        (projr (on_apply kv_collaborators [set_entry 1 ''x=1''] follower_state)))))
       = ([(''x'', ''1'')], 1)
   \<and> applied_index (snd (projl (apply_entry kv_collaborators (set_entry 2 ''garbage'')
        (projr (on_apply kv_collaborators [set_entry 1 ''x=1''] follower_state))))) = 1
   \<and> apply_entry kv_collaborators (set_entry 4 ''=v'') follower_state =
       Inl (Store_fault, emit (Log ERROR ''Apply failed: store fault'') follower_state)"
proof -
  define s1 where "s1 = projr (on_apply kv_collaborators [set_entry 1 ''x=1''] follower_state)"
  define h where "h = snd (projl (apply_entry kv_collaborators (set_entry 2 ''garbage'') s1))"
  have p: "on_apply kv_collaborators [set_entry 1 ''x=1''] follower_state = Inr s1"
    unfolding s1_def
    by (simp add: apply_entry_def kv_collaborators_def kv_deserialize_def kv_apply_def
        set_entry_def follower_state_def refresh_catchup_status_def emit_def)
  have st1: "store s1 = ([(''x'', ''1'')], 1)"
    unfolding s1_def
    by (simp add: apply_entry_def kv_collaborators_def kv_deserialize_def kv_apply_def
        set_entry_def follower_state_def refresh_catchup_status_def emit_def)
  have d: "deserialize kv_collaborators (entry_data (set_entry 2 ''garbage'')) = None"
    by (simp add: kv_collaborators_def kv_deserialize_def set_entry_def)
  have f: "apply_entry kv_collaborators (set_entry 2 ''garbage'') s1 = Inl (Malformed_entry, h)"
    unfolding h_def using d by (simp add: apply_entry_def)
  have d4: "deserialize kv_collaborators (entry_data (set_entry 4 ''=v'')) = Some ([], ''v'')"
    by (simp add: kv_collaborators_def kv_deserialize_def set_entry_def)
  have a4: "store_apply kv_collaborators ([], ''v'') (store follower_state) = None"
    by (simp add: kv_collaborators_def kv_apply_def)
  have s0: "applied_index follower_state = 0"
    by (simp add: follower_state_def)
  note t = apply_failure_is_fatal
      [where E = kv_collaborators and pre = "[set_entry 1 ''x=1'']" and s = follower_state
         and ?s1.0 = s1 and e = "set_entry 2 ''garbage''" and err = Malformed_entry and h = h
         and post = "[set_entry 3 ''y=2'']"]
  note u = apply_failure_is_fatal
      [where E = kv_collaborators and e = "set_entry 4 ''=v''" and s = follower_state
         and opn = "([], ''v'')", THEN conjunct2, THEN conjunct2, THEN conjunct1]
  from t p f st1 s0 u d4 a4 show ?thesis
    unfolding s1_def [symmetric] h_def [symmetric] by simp
qed

subsection \<open>Readiness\<close>

lemma quotient_as_percentage:
  assumes "0 < K"
  shows "(real t / 100 \<le> real L / real K) = (t * K \<le> 100 * L)"
proof -
  have "(real t / 100 \<le> real L / real K) = (real t * real K \<le> 100 * real L)"
    using assms by (simp add: field_simps)
  also have "\<dots> = (real (t * K) \<le> real (100 * L))"
    by simp
  also have "\<dots> = (t * K \<le> 100 * L)"
    by (rule of_nat_le_iff)
  finally show ?thesis .
qed

text \<open>
  C3. The readiness flag that \<open>is_ready\<close> returns is, after each recomputation, true
  exactly when \<open>gap <= catchup_min_sequence_diff\<close> or
  \<open>L / K >= catch_up_threshold_percentage\<close>, with \<open>gap = K - L\<close>, \<open>L\<close> the local
  applied sequence, \<open>K\<close> the leader's known sequence and the threshold a percentage;
  it is false exactly when the gap is larger and the quotient smaller. It is
  recomputed on every applied entry: after each entry, and so after each batch
  \<open>on_apply\<close> applied, the flag is the condition at the sequences reached. For a
  positive \<open>K\<close> the quotient reaches the threshold exactly when
  \<open>100 * L >= threshold * K\<close>; with \<open>K = 0\<close> the gap alone makes the node ready.
\<close>

theorem readiness_recomputed:
  "is_ready (refresh_catchup_status E s) =
     (int (leader_known_sequence s) - int (current_sequence E (store s))
        \<le> int (catchup_min_sequence_diff s)
      \<or> real (current_sequence E (store s)) / real (leader_known_sequence s)
        \<ge> real (catch_up_threshold_percentage s) / 100)
   \<and> (\<not> is_ready (refresh_catchup_status E s)) =
     (int (leader_known_sequence s) - int (current_sequence E (store s))
        > int (catchup_min_sequence_diff s)
      \<and> real (current_sequence E (store s)) / real (leader_known_sequence s)
        < real (catch_up_threshold_percentage s) / 100)
   \<and> (apply_entry E e s = Inr s' \<longrightarrow>
     is_ready s' =
       (int (leader_known_sequence s') - int (current_sequence E (store s'))
          \<le> int (catchup_min_sequence_diff s')
        \<or> real (current_sequence E (store s')) / real (leader_known_sequence s')
          \<ge> real (catch_up_threshold_percentage s') / 100))
   \<and> (on_apply E es s = Inr s' \<and> es \<noteq> [] \<longrightarrow>
     is_ready s' =
       (int (leader_known_sequence s') - int (current_sequence E (store s'))
          \<le> int (catchup_min_sequence_diff s')
        \<or> real (current_sequence E (store s')) / real (leader_known_sequence s')
          \<ge> real (catch_up_threshold_percentage s') / 100))
   \<and> (0 < leader_known_sequence s \<longrightarrow>
     is_ready (refresh_catchup_status E s) =
       (leader_known_sequence s \<le> current_sequence E (store s) + catchup_min_sequence_diff s
        \<or> catch_up_threshold_percentage s * leader_known_sequence s
          \<le> 100 * current_sequence E (store s)))
   \<and> (leader_known_sequence s = 0 \<longrightarrow> is_ready (refresh_catchup_status E s))"
proof -
  have one: "is_ready s' =
       (int (leader_known_sequence s') - int (current_sequence E (store s'))
          \<le> int (catchup_min_sequence_diff s')
        \<or> real (current_sequence E (store s')) / real (leader_known_sequence s')
          \<ge> real (catch_up_threshold_percentage s') / 100)"
    if "apply_entry E e s = Inr s'"
    using that by (rule apply_entry_Inr) (simp add: caught_up_condition_def catch_up_gap_def)
  have batch: "is_ready s' =
       (int (leader_known_sequence s') - int (current_sequence E (store s'))
          \<le> int (catchup_min_sequence_diff s')
        \<or> real (current_sequence E (store s')) / real (leader_known_sequence s')
          \<ge> real (catch_up_threshold_percentage s') / 100)"
    if "on_apply E es s = Inr s'" and "es \<noteq> []"
    using on_apply_ready [OF that] by (simp add: caught_up_condition_def catch_up_gap_def)
  have now: "is_ready (refresh_catchup_status E s) =
     (int (leader_known_sequence s) - int (current_sequence E (store s))
        \<le> int (catchup_min_sequence_diff s)
      \<or> real (current_sequence E (store s)) / real (leader_known_sequence s)
        \<ge> real (catch_up_threshold_percentage s) / 100)"
    by (simp add: is_ready_def refresh_catchup_status_def caught_up_condition_def catch_up_gap_def)
  have neg: "(\<not> is_ready (refresh_catchup_status E s)) =
     (int (leader_known_sequence s) - int (current_sequence E (store s))
        > int (catchup_min_sequence_diff s)
      \<and> real (current_sequence E (store s)) / real (leader_known_sequence s)
        < real (catch_up_threshold_percentage s) / 100)"
    unfolding now by (simp add: not_le)
  have nat_form: "is_ready (refresh_catchup_status E s) =
       (leader_known_sequence s \<le> current_sequence E (store s) + catchup_min_sequence_diff s
        \<or> catch_up_threshold_percentage s * leader_known_sequence s
          \<le> 100 * current_sequence E (store s))"
    if "0 < leader_known_sequence s"
  proof -
    have "(int (leader_known_sequence s) - int (current_sequence E (store s))
        \<le> int (catchup_min_sequence_diff s)) =
        (leader_known_sequence s \<le> current_sequence E (store s) + catchup_min_sequence_diff s)"
      by linarith
    then show ?thesis
      unfolding now using quotient_as_percentage [OF that] by simp
  qed
  have zero: "is_ready (refresh_catchup_status E s)" if "leader_known_sequence s = 0"
    unfolding now using that by simp
  show ?thesis
    using one batch now neg nat_form zero by blast
qed

theorem readiness_recomputed_witness:
  "current_sequence kv_collaborators (store (projr (on_apply kv_collaborators
       [set_entry 900 ''x=1''] (follower_state\<lparr>store := ([], 899)\<rparr>)))) = 900
   \<and> \<not> is_ready (projr (on_apply kv_collaborators
       [set_entry 900 ''x=1''] (follower_state\<lparr>store := ([], 899)\<rparr>)))
   \<and> current_sequence kv_collaborators (store (projr (on_apply kv_collaborators
       [set_entry 9600 ''x=1'']
       (follower_state\<lparr>store := ([], 9599), leader_known_sequence := 10000\<rparr>)))) = 9600
   \<and> is_ready (projr (on_apply kv_collaborators
       [set_entry 9600 ''x=1'']
       (follower_state\<lparr>store := ([], 9599), leader_known_sequence := 10000\<rparr>)))
   \<and> current_sequence kv_collaborators (store (projr (on_apply kv_collaborators
       [set_entry 10 ''x=1''] (follower_state\<lparr>store := ([], 9), leader_known_sequence := 50\<rparr>))))
       = 10
   \<and> is_ready (projr (on_apply kv_collaborators
       [set_entry 10 ''x=1''] (follower_state\<lparr>store := ([], 9), leader_known_sequence := 50\<rparr>)))"
proof -
  define a where "a = projr (on_apply kv_collaborators
       [set_entry 900 ''x=1''] (follower_state\<lparr>store := ([], 899)\<rparr>))"
  define b where "b = projr (on_apply kv_collaborators
       [set_entry 9600 ''x=1'']
       (follower_state\<lparr>store := ([], 9599), leader_known_sequence := 10000\<rparr>))"
  define c where "c = projr (on_apply kv_collaborators
       [set_entry 10 ''x=1''] (follower_state\<lparr>store := ([], 9), leader_known_sequence := 50\<rparr>))"
  have ea: "on_apply kv_collaborators [set_entry 900 ''x=1''] (follower_state\<lparr>store := ([], 899)\<rparr>)
      = Inr a"
    unfolding a_def
    by (simp add: apply_entry_def kv_collaborators_def kv_deserialize_def kv_apply_def
        set_entry_def follower_state_def refresh_catchup_status_def emit_def)
  have eb: "on_apply kv_collaborators [set_entry 9600 ''x=1'']
       (follower_state\<lparr>store := ([], 9599), leader_known_sequence := 10000\<rparr>) = Inr b"
    unfolding b_def
    by (simp add: apply_entry_def kv_collaborators_def kv_deserialize_def kv_apply_def
        set_entry_def follower_state_def refresh_catchup_status_def emit_def)
  have ec: "on_apply kv_collaborators [set_entry 10 ''x=1'']
       (follower_state\<lparr>store := ([], 9), leader_known_sequence := 50\<rparr>) = Inr c"
    unfolding c_def
    by (simp add: apply_entry_def kv_collaborators_def kv_deserialize_def kv_apply_def
        set_entry_def follower_state_def refresh_catchup_status_def emit_def)
  have fa: "current_sequence kv_collaborators (store a) = 900" "leader_known_sequence a = 1000"
    "catchup_min_sequence_diff a = 50" "catch_up_threshold_percentage a = 95"
    unfolding a_def
    by (simp_all add: apply_entry_def kv_collaborators_def kv_deserialize_def kv_apply_def
        set_entry_def follower_state_def refresh_catchup_status_def emit_def)
  have fb: "current_sequence kv_collaborators (store b) = 9600" "leader_known_sequence b = 10000"
    "catchup_min_sequence_diff b = 50" "catch_up_threshold_percentage b = 95"
    unfolding b_def
    by (simp_all add: apply_entry_def kv_collaborators_def kv_deserialize_def kv_apply_def
        set_entry_def follower_state_def refresh_catchup_status_def emit_def)
  have fc: "current_sequence kv_collaborators (store c) = 10" "leader_known_sequence c = 50"
    "catchup_min_sequence_diff c = 50" "catch_up_threshold_percentage c = 95"
    unfolding c_def
    by (simp_all add: apply_entry_def kv_collaborators_def kv_deserialize_def kv_apply_def
        set_entry_def follower_state_def refresh_catchup_status_def emit_def)
  have ra: "\<not> is_ready a"
    using readiness_recomputed
      [where E = kv_collaborators and es = "[set_entry 900 ''x=1'']"
         and s = "follower_state\<lparr>store := ([], 899)\<rparr>" and s' = a,
       THEN conjunct2, THEN conjunct2, THEN conjunct2, THEN conjunct1] ea fa
    by simp
  have rb: "is_ready b"
    using readiness_recomputed
      [where E = kv_collaborators and es = "[set_entry 9600 ''x=1'']"
         and s = "follower_state\<lparr>store := ([], 9599), leader_known_sequence := 10000\<rparr>"
         and s' = b,
       THEN conjunct2, THEN conjunct2, THEN conjunct2, THEN conjunct1] eb fb
    by simp
  have rc: "is_ready c"
    using readiness_recomputed
      [where E = kv_collaborators and es = "[set_entry 10 ''x=1'']"
         and s = "follower_state\<lparr>store := ([], 9), leader_known_sequence := 50\<rparr>"
         and s' = c,
       THEN conjunct2, THEN conjunct2, THEN conjunct2, THEN conjunct1] ec fc
    by simp
  show ?thesis
    using fa(1) fb(1) fc(1) ra rb rc unfolding a_def b_def c_def by simp
qed

subsection \<open>The write path\<close>









subsection \<open>Snapshots\<close>

text \<open>
  C5, as amended. With no external override path configured: when \<open>on_snapshot_save\<close>
  succeeds (the Store checkpoint is taken) it publishes a snapshot that records the
  applied index N of that moment and reports success; an \<open>on_snapshot_load\<close> right
  after it, with no entry applied in between, restores the Store from the published
  checkpoint and sets AppliedIndex to exactly N. The same holds after a restart that
  lost the Store and the counter held in memory.
\<close>

theorem snapshot_save_load_roundtrip:
  "ext_snapshot_path s = [] \<Longrightarrow> checkpoint E (store s) = Some img \<Longrightarrow>
     current_snapshot (on_snapshot_save E w s) =
       Published \<lparr>snap_dir = w, snap_applied_index = applied_index s,
                  snap_override_path = None, snap_checkpoint = img\<rparr>
     \<and> effects (on_snapshot_save E w s) = effects s @ [Snapshot_done True]
     \<and> on_snapshot_load E (on_snapshot_save E w s) =
         Inr ((on_snapshot_save E w s)\<lparr>store := img, applied_index := applied_index s\<rparr>)
     \<and> on_snapshot_load E ((on_snapshot_save E w s)\<lparr>store := st0, applied_index := a0\<rparr>) =
         Inr ((on_snapshot_save E w s)\<lparr>store := img, applied_index := applied_index s\<rparr>)"
  by (simp add: on_snapshot_save_def on_snapshot_load_def emit_def)

theorem snapshot_save_load_roundtrip_witness:
  "ext_snapshot_path (override_state\<lparr>ext_snapshot_path := []\<rparr>) = []
   \<and> applied_index (override_state\<lparr>ext_snapshot_path := []\<rparr>) = 3
   \<and> \<not> isl (on_snapshot_load kv_collaborators
        (on_snapshot_save kv_collaborators ''/raft/snapshot''
          (override_state\<lparr>ext_snapshot_path := []\<rparr>)))
   \<and> applied_index (projr (on_snapshot_load kv_collaborators
        (on_snapshot_save kv_collaborators ''/raft/snapshot''
          (override_state\<lparr>ext_snapshot_path := []\<rparr>)))) = 3
   \<and> store (projr (on_snapshot_load kv_collaborators
        (on_snapshot_save kv_collaborators ''/raft/snapshot''
          (override_state\<lparr>ext_snapshot_path := []\<rparr>)))) = ([(''x'', ''1'')], 3)"
proof -
  have p: "ext_snapshot_path (override_state\<lparr>ext_snapshot_path := []\<rparr>) = []"
    by simp
  have c: "checkpoint kv_collaborators (store (override_state\<lparr>ext_snapshot_path := []\<rparr>))
      = Some ([(''x'', ''1'')], 3)"
    by (simp add: kv_collaborators_def override_state_def)
  have n: "applied_index (override_state\<lparr>ext_snapshot_path := []\<rparr>) = 3"
    by (simp add: override_state_def)
  from snapshot_save_load_roundtrip [OF p c, of "''/raft/snapshot''"] p n
  show ?thesis by simp
qed

text \<open>
  The claim as stated, for every state, fails where an external override path is
  configured: the save records index 3 in the published snapshot, and the load that
  follows prefers the override archive, so the Store and AppliedIndex (7) are those of
  the archive, not those of the published snapshot.
\<close>

theorem snapshot_load_prefers_override:
  "checkpoint kv_collaborators (store override_state) = Some (store override_state)
   \<and> applied_index override_state = 3
   \<and> current_snapshot (on_snapshot_save kv_collaborators ''/raft/snapshot'' override_state) =
       Published \<lparr>snap_dir = ''/raft/snapshot'', snap_applied_index = 3,
                  snap_override_path = Some ''/ext'', snap_checkpoint = ([(''x'', ''1'')], 3)\<rparr>
   \<and> effects (on_snapshot_save kv_collaborators ''/raft/snapshot'' override_state) =
       [Snapshot_done True]
   \<and> \<not> isl (on_snapshot_load kv_collaborators
        (on_snapshot_save kv_collaborators ''/raft/snapshot'' override_state))
   \<and> applied_index (projr (on_snapshot_load kv_collaborators
        (on_snapshot_save kv_collaborators ''/raft/snapshot'' override_state))) = 7
   \<and> store (projr (on_snapshot_load kv_collaborators
        (on_snapshot_save kv_collaborators ''/raft/snapshot'' override_state))) =
       ([(''k'', ''old'')], 7)"
  by (simp add: on_snapshot_save_def on_snapshot_load_def emit_def kv_collaborators_def
      override_state_def follower_state_def)

end
